theory Spec2Isabelle
  imports Main "HOL-Library.Signed_Division"
begin

section \<open>VIN validation and decoding (core/vin.go)\<close>

subsection \<open>Outcomes of a Go call\<close>

text \<open>
  A Go call either returns or panics. The panics that the functions of vin.go can raise are
  a slice expression out of bounds, an index out of range, and the explicit
  \<^verbatim>\<open>panic(err)\<close> of calculateScore.
\<close>

datatype panic = SliceOutOfRange | IndexOutOfRange | AtoiFailed

datatype 'a go = Panic panic | Return 'a

text \<open>
  The values of Go's \<^verbatim>\<open>error\<close> that vin.go produces: one constructor for each
  \<^verbatim>\<open>errors.New\<close> / \<^verbatim>\<open>fmt.Errorf\<close> of the file, and one that carries the
  error of a lookup collaborator unchanged.
  \<^item> \<open>NotCorrectLength\<close>: "not correct length"
  \<^item> \<open>IllegalCharacters\<close>: "found illegal characters"
  \<^item> \<open>CheckDigitInvalid found expected\<close>: "check digit %s is invalid for %s"
  \<^item> \<open>UnableToGetWeight\<close>: "unable to get a weight"
\<close>

datatype 'e error =
    NotCorrectLength
  | IllegalCharacters
  | CheckDigitInvalid string string
  | UnableToGetWeight
  | Lookup 'e

subsection \<open>Strings and slices\<close>

text \<open>
  A Go string is a sequence of bytes, and \<^verbatim>\<open>len\<close> and slice expressions count bytes:
  \<^typ>\<open>string\<close> with \<^const>\<open>length\<close>. The slice \<^verbatim>\<open>s[lo:hi]\<close> panics unless
  \<open>lo \<le> hi \<le> len(s)\<close>.
\<close>

definition slice :: "string \<Rightarrow> nat \<Rightarrow> nat \<Rightarrow> string go" where
  "slice s lo hi =
     (if lo \<le> hi \<and> hi \<le> length s then Return (take (hi - lo) (drop lo s))
      else Panic SliceOutOfRange)"

text \<open>\<^verbatim>\<open>strings.ContainsAny(s, chars)\<close> for a set of ASCII characters: some byte of s is in chars.\<close>

definition ContainsAny :: "string \<Rightarrow> string \<Rightarrow> bool" where
  "ContainsAny s chars = list_ex (\<lambda>c. c \<in> set chars) s"

subsection \<open>strconv\<close>

text \<open>
  \<^verbatim>\<open>strconv.Atoi\<close> on a 64-bit platform, as \<^verbatim>\<open>ParseInt(s, 10, 0)\<close> computes it (the fast path
  of Atoi for short strings returns the same value and the same kind of error): an optional
  sign, then at least one decimal digit and nothing else. A syntax error returns 0; a value
  out of range returns the nearest bound together with the range error. The unsigned
  64-bit accumulator of ParseUint is an \<^typ>\<open>int\<close> that the two range checks keep
  below \<open>2 ^ 64\<close>.
\<close>

datatype NumError = ErrSyntax | ErrRange

definition isDigit :: "char \<Rightarrow> bool" where
  "isDigit c = (48 \<le> (of_char c :: nat) \<and> (of_char c :: nat) \<le> 57)"

definition digitVal :: "char \<Rightarrow> int" where
  "digitVal c = of_char c - 48"

definition maxUint64 :: int where
  "maxUint64 = 18446744073709551615"

fun ParseUint_loop :: "int \<Rightarrow> string \<Rightarrow> int \<times> NumError option" where
  "ParseUint_loop n [] = (n, None)"
| "ParseUint_loop n (c # cs) =
     (if \<not> isDigit c then (0, Some ErrSyntax)
      else if n \<ge> maxUint64 div 10 + 1 then (maxUint64, Some ErrRange)
      else if n * 10 + digitVal c > maxUint64 then (maxUint64, Some ErrRange)
      else ParseUint_loop (n * 10 + digitVal c) cs)"

definition ParseUint :: "string \<Rightarrow> int \<times> NumError option" where
  "ParseUint s = (if s = [] then (0, Some ErrSyntax) else ParseUint_loop 0 s)"

definition ParseInt :: "string \<Rightarrow> int \<times> NumError option" where
  "ParseInt s =
     (case s of
        [] \<Rightarrow> (0, Some ErrSyntax)
      | c # cs \<Rightarrow>
          (let neg = (c = CHR ''-'');
               s' = (if c = CHR ''+'' \<or> c = CHR ''-'' then cs else s)
           in case ParseUint s' of
                (un, Some ErrSyntax) \<Rightarrow> (0, Some ErrSyntax)
              | (un, _) \<Rightarrow>
                  if \<not> neg \<and> un \<ge> 9223372036854775808
                    then (9223372036854775807, Some ErrRange)
                  else if neg \<and> un > 9223372036854775808
                    then (- 9223372036854775808, Some ErrRange)
                  else (if neg then - un else un, None)))"

definition Atoi :: "string \<Rightarrow> int \<times> NumError option" where
  "Atoi s = ParseInt s"

text \<open>\<^verbatim>\<open>strconv.Itoa\<close>: the decimal numeral of an integer, with a minus sign when negative.\<close>

definition decimalDigits :: string where
  "decimalDigits = ''0123456789''"

fun formatNat :: "nat \<Rightarrow> string" where
  "formatNat n =
     (if n < 10 then [decimalDigits ! n]
      else formatNat (n div 10) @ [decimalDigits ! (n mod 10)])"

declare formatNat.simps [simp del]

definition Itoa :: "int \<Rightarrow> string" where
  "Itoa i = (if i < 0 then CHR ''-'' # formatNat (nat (- i)) else formatNat (nat i))"

subsection \<open>The check digit\<close>

text \<open>getCharacterMap: the map is built by 23 assignments, in this order.\<close>

definition getCharacterMap :: "string \<rightharpoonup> int" where
  "getCharacterMap = Map.empty
     (''A'' \<mapsto> 1, ''B'' \<mapsto> 2, ''C'' \<mapsto> 3, ''D'' \<mapsto> 4, ''E'' \<mapsto> 5, ''F'' \<mapsto> 6,
      ''G'' \<mapsto> 7, ''H'' \<mapsto> 8, ''J'' \<mapsto> 1, ''K'' \<mapsto> 2, ''L'' \<mapsto> 3, ''M'' \<mapsto> 4,
      ''N'' \<mapsto> 5, ''P'' \<mapsto> 7, ''R'' \<mapsto> 9, ''S'' \<mapsto> 2, ''T'' \<mapsto> 3, ''U'' \<mapsto> 4,
      ''V'' \<mapsto> 5, ''W'' \<mapsto> 6, ''X'' \<mapsto> 7, ''Y'' \<mapsto> 8, ''Z'' \<mapsto> 9)"

definition weights :: "int list" where
  "weights = [8, 7, 6, 5, 4, 3, 2, 10, 0, 9, 8, 7, 6, 5, 4, 3, 2]"

text \<open>
  The body of the loop of calculateScore up to the assignment of \<^verbatim>\<open>value\<close>: the map
  is consulted first, and a string that is not a key is parsed with Atoi; a parse error
  panics. \<^verbatim>\<open>range fullvin\<close> yields runes: an ASCII byte is a rune of its own, and
  \<^verbatim>\<open>string(v)\<close> is that byte. A byte from 0x80 up starts a rune (or is an invalid one,
  U+FFFD) whose string has several bytes, is no key of the map and no numeral, so the loop
  panics there, as it does in this model, where the one-byte string is no key and no
  numeral either.
\<close>

definition charValue :: "char \<Rightarrow> int go" where
  "charValue v =
     (let strVal = [v]
      in case getCharacterMap strVal of
           Some value \<Rightarrow> Return value
         | None \<Rightarrow>
             (case Atoi strVal of
                (val, Some err) \<Rightarrow> Panic AtoiFailed
              | (val, None) \<Rightarrow> Return val))"

text \<open>
  The loop \<^verbatim>\<open>for k, v := range fullvin\<close>, from byte index k with the sum so far.
  \<^verbatim>\<open>weights[k]\<close> panics from index 17 on. The sum is at most 17 terms of at most 90, so
  Go's 64-bit addition never wraps.
\<close>

fun calculateScore_loop :: "nat \<Rightarrow> int \<Rightarrow> string \<Rightarrow> int go" where
  "calculateScore_loop k result [] = Return result"
| "calculateScore_loop k result (v # vs) =
     (case charValue v of
        Panic p \<Rightarrow> Panic p
      | Return value \<Rightarrow>
          if k < length weights
            then calculateScore_loop (Suc k) (result + value * weights ! k) vs
          else Panic IndexOutOfRange)"

text \<open>Go's \<^verbatim>\<open>%\<close> truncates towards zero: \<open>smod\<close>.\<close>

definition calculateScore :: "string \<Rightarrow> string go" where
  "calculateScore fullvin =
     (case calculateScore_loop 0 0 fullvin of
        Panic p \<Rightarrow> Panic p
      | Return result \<Rightarrow>
          (let m = result smod 11
           in if m = 10 then Return ''X'' else Return (Itoa m)))"

subsection \<open>ValidateVIN\<close>

definition ValidateVIN :: "string \<Rightarrow> 'e error option go" where
  "ValidateVIN fullvin =
     (if length fullvin \<noteq> 17 then Return (Some NotCorrectLength)
      else if ContainsAny fullvin ''IOQ'' then Return (Some IllegalCharacters)
      else case slice fullvin 8 9 of
             Panic p \<Rightarrow> Panic p
           | Return checkDigit \<Rightarrow>
               (case calculateScore fullvin of
                  Panic p \<Rightarrow> Panic p
                | Return score \<Rightarrow>
                    if checkDigit \<noteq> score
                      then Return (Some (CheckDigitInvalid checkDigit score))
                    else Return None))"

subsection \<open>The VIN record and the collaborators\<close>

text \<open>
  The struct VIN. The types WMInfo and vds.VDSInfo are declared outside vin.go; they are
  the type parameters \<open>'w\<close> and \<open>'v\<close>.
\<close>

record ('w, 'v) VIN =
  Full :: string
  Unique :: string
  Serial :: int
  WMInfo :: 'w
  VDSInfo :: 'v

text \<open>
  What vin.go calls and does not define. FindWMInfo and vds.FindVDSInfo read a store
  outside this file: they take the state \<open>'s\<close> of the world and return it, possibly
  changed, with either their error or their record. \<open>Manufacturer\<close> is the field of
  WMInfo that deconstruct passes to the VDS lookup. getCharWeight is a function of the
  package that is not in vin.go. \<open>nowYear\<close> is \<^verbatim>\<open>time.Now().Year()\<close>, read off the
  world. \<open>zeroWMInfo\<close> and \<open>zeroVDSInfo\<close> are Go's zero values of the two struct types,
  which the literal \<^verbatim>\<open>&VIN{Full: fullvin}\<close> stores in the fields it does not name.
\<close>

record ('s, 'e, 'w, 'm, 'v) collaborators =
  FindWMInfo :: "string \<Rightarrow> 's \<Rightarrow> ('e + 'w) \<times> 's"
  FindVDSInfo :: "'m \<Rightarrow> string \<Rightarrow> int list \<Rightarrow> 's \<Rightarrow> ('e + 'v) \<times> 's"
  Manufacturer :: "'w \<Rightarrow> 'm"
  getCharWeight :: "string \<Rightarrow> int"
  nowYear :: "'s \<Rightarrow> int"
  zeroWMInfo :: 'w
  zeroVDSInfo :: 'v

subsection \<open>getUniqueSerial and manufactureYear\<close>

text \<open>
  \<^verbatim>\<open>fullvin[11:]\<close> is evaluated first and panics on fewer than 11 bytes; the error of
  Atoi is dropped and its value kept.
\<close>

definition getUniqueSerial :: "string \<Rightarrow> (string \<times> int) go" where
  "getUniqueSerial fullvin =
     (case slice fullvin 11 (length fullvin) of
        Panic p \<Rightarrow> Panic p
      | Return tail \<Rightarrow>
          (let (serial, _) = Atoi tail
           in case slice fullvin 0 11 of
                Panic p \<Rightarrow> Panic p
              | Return unique \<Rightarrow> Return (unique, serial)))"

text \<open>Go's addition on \<^verbatim>\<open>int\<close> wraps around at 64 bits.\<close>

definition wrap64 :: "int \<Rightarrow> int" where
  "wrap64 i = (i + 9223372036854775808) mod 18446744073709551616 - 9223372036854775808"

text \<open>The loop \<^verbatim>\<open>for _, v := range years\<close>, with the slice appended to so far.\<close>

fun manufactureYear_loop :: "int \<Rightarrow> int \<Rightarrow> int list \<Rightarrow> int list \<Rightarrow> int list" where
  "manufactureYear_loop charWeight maxYear [] result = result"
| "manufactureYear_loop charWeight maxYear (v # vs) result =
     (let year = wrap64 (v + charWeight)
      in if year < maxYear
           then manufactureYear_loop charWeight maxYear vs (result @ [year])
         else manufactureYear_loop charWeight maxYear vs result)"

definition manufactureYear ::
  "('s, 'e, 'w, 'm, 'v) collaborators \<Rightarrow> string \<Rightarrow> 's \<Rightarrow> 'e error + int list" where
  "manufactureYear env digit s =
     (let charWeight = getCharWeight env digit
      in if charWeight = 0 then Inl UnableToGetWeight
         else (let years = [1980, 2010];
                   maxYear = nowYear env s
               in Inr (manufactureYear_loop charWeight maxYear years [])))"

subsection \<open>deconstruct, newVIN and BuildInfo\<close>

text \<open>
  deconstruct has a pointer receiver: it returns its error (\<open>None\<close> for nil) together with
  the VIN as it has left it, and the state of the world after its lookups. The record that
  vds.FindVDSInfo returns is assigned to the blank identifier.
\<close>

definition deconstruct ::
  "('s, 'e, 'w, 'm, 'v) collaborators \<Rightarrow> ('w, 'v) VIN \<Rightarrow> 's
     \<Rightarrow> (('e error option \<times> ('w, 'v) VIN) \<times> 's) go" where
  "deconstruct env m s =
     (case getUniqueSerial (Full m) of
        Panic p \<Rightarrow> Panic p
      | Return (unique, serial) \<Rightarrow>
          (let m1 = m\<lparr>Unique := unique, Serial := serial\<rparr>
           in case FindWMInfo env (Unique m1) s of
                (Inl err, s1) \<Rightarrow> Return ((Some (Lookup err), m1), s1)
              | (Inr wmiInfo, s1) \<Rightarrow>
                  (let m2 = m1\<lparr>WMInfo := wmiInfo\<rparr>
                   in case slice (Full m2) 9 10 of
                        Panic p \<Rightarrow> Panic p
                      | Return digit \<Rightarrow>
                          (case manufactureYear env digit s1 of
                             Inl err \<Rightarrow> Return ((Some err, m2), s1)
                           | Inr years \<Rightarrow>
                               (case FindVDSInfo env (Manufacturer env wmiInfo) (Unique m2) years s1 of
                                  (Inl err, s2) \<Rightarrow> Return ((Some (Lookup err), m2), s2)
                                | (Inr _, s2) \<Rightarrow> Return ((None, m2), s2))))))"

definition newVIN ::
  "('s, 'e, 'w, 'm, 'v) collaborators \<Rightarrow> string \<Rightarrow> 's
     \<Rightarrow> (('e error + ('w, 'v) VIN) \<times> 's) go" where
  "newVIN env fullvin s =
     (let vin = \<lparr>Full = fullvin, Unique = [], Serial = 0,
                 WMInfo = zeroWMInfo env, VDSInfo = zeroVDSInfo env\<rparr>
      in case deconstruct env vin s of
           Panic p \<Rightarrow> Panic p
         | Return ((Some err, _), s1) \<Rightarrow> Return (Inl err, s1)
         | Return ((None, vin1), s1) \<Rightarrow> Return (Inr vin1, s1))"

definition BuildInfo ::
  "('s, 'e, 'w, 'm, 'v) collaborators \<Rightarrow> string \<Rightarrow> 's
     \<Rightarrow> (('e error + ('w, 'v) VIN) \<times> 's) go" where
  "BuildInfo env fullvin s =
     (case newVIN env fullvin s of
        Panic p \<Rightarrow> Panic p
      | Return (Inl err, s1) \<Rightarrow> Return (Inl err, s1)
      | Return (Inr vin, s1) \<Rightarrow>
          (case deconstruct env vin s1 of
             Panic p \<Rightarrow> Panic p
           | Return ((Some err, _), s2) \<Rightarrow> Return (Inl err, s2)
           | Return ((None, vin1), s2) \<Rightarrow> Return (Inr vin1, s2)))"

subsection \<open>A set of collaborators to run the code on\<close>

text \<open>
  An instance of the parameters, for evaluating the functions on concrete inputs. The world
  is a pair of counters: the calls of the WMI lookup and of the VDS lookup so far. The WMI
  lookup knows the prefix 1HG; the VDS lookup returns a record for every key. The year
  table gives each of the 30 model-year characters its position in the cycle, starting at
  0 for A, and 0 (the zero value of a Go map) for any other string. The year is 2025.
\<close>

definition demoYearChars :: string where
  "demoYearChars = ''ABCDEFGHJKLMNPRSTVWXY123456789''"

fun indexOf :: "char \<Rightarrow> string \<Rightarrow> int option" where
  "indexOf c [] = None"
| "indexOf c (d # ds) =
     (if c = d then Some 0 else map_option (\<lambda>i. i + 1) (indexOf c ds))"

definition demoCharWeight :: "string \<Rightarrow> int" where
  "demoCharWeight digit =
     (case digit of
        [c] \<Rightarrow> (case indexOf c demoYearChars of Some i \<Rightarrow> i | None \<Rightarrow> 0)
      | _ \<Rightarrow> 0)"

definition demo :: "(nat \<times> nat, string, string, string, string) collaborators" where
  "demo =
     \<lparr>FindWMInfo = (\<lambda>unique (w, v).
         (if take 3 unique = ''1HG'' then Inr ''Honda'' else Inl ''no manufacturer'', (Suc w, v))),
      FindVDSInfo = (\<lambda>manufacturer unique years (w, v).
         (Inr (manufacturer @ '' '' @ drop 3 unique), (w, Suc v))),
      Manufacturer = (\<lambda>w. w),
      getCharWeight = demoCharWeight,
      nowYear = (\<lambda>s. 2025),
      zeroWMInfo = [],
      zeroVDSInfo = []\<rparr>"

subsection \<open>Notions of the specification\<close>

text \<open>
  The valid character set: the decimal digits and the 23 letters other than I, O and Q.
\<close>

definition charsetValid :: "char \<Rightarrow> bool" where
  "charsetValid c = (c \<in> set ''0123456789ABCDEFGHJKLMNPRSTUVWXYZ'')"

text \<open>
  The check character as the specification words it: a digit stands for itself and a letter
  for its entry in the character table (the table of getCharacterMap); each value is
  multiplied by the weight of its position, the 17 products are summed, and the remainder
  modulo 11 is written as X when it is 10 and as the decimal digit otherwise.
\<close>

definition CharacterValue :: "char \<Rightarrow> int" where
  "CharacterValue c =
     (if isDigit c then digitVal c
      else case getCharacterMap [c] of Some v \<Rightarrow> v | None \<Rightarrow> 0)"

definition PositionWeightTable :: "int list" where
  "PositionWeightTable = [8, 7, 6, 5, 4, 3, 2, 10, 0, 9, 8, 7, 6, 5, 4, 3, 2]"

definition CheckCharacter :: "string \<Rightarrow> string" where
  "CheckCharacter vin17 =
     (let r = sum_list (map2 (\<lambda>c w. CharacterValue c * w) vin17 PositionWeightTable) mod 11
      in if r = 10 then ''X'' else [decimalDigits ! nat r])"

text \<open>The integer that a string of decimal digits denotes.\<close>

definition decimalValue :: "string \<Rightarrow> int" where
  "decimalValue ds = foldl (\<lambda>a c. a * 10 + digitVal c) 0 ds"

section \<open>Properties\<close>

subsection \<open>The check digit on valid input\<close>

lemma charValue_table:
  "list_all (\<lambda>c. charValue c = Return (CharacterValue c) \<and> 0 \<le> CharacterValue c \<and> CharacterValue c \<le> 9)
     ''0123456789ABCDEFGHJKLMNPRSTUVWXYZ''"
  by (simp add: charValue_def CharacterValue_def getCharacterMap_def Atoi_def ParseInt_def
      ParseUint_def isDigit_def digitVal_def maxUint64_def)

lemma charValue_valid:
  assumes "charsetValid c"
  shows "charValue c = Return (CharacterValue c)"
  using assms charValue_table unfolding charsetValid_def list_all_iff by blast

lemma CharacterValue_range:
  assumes "charsetValid c"
  shows "0 \<le> CharacterValue c \<and> CharacterValue c \<le> 9"
  using assms charValue_table unfolding charsetValid_def list_all_iff by blast

lemma length_weights: "length weights = 17"
  by (simp add: weights_def)

lemma calculateScore_loop_valid:
  "list_all charsetValid vs \<Longrightarrow> k + length vs \<le> 17 \<Longrightarrow>
   calculateScore_loop k acc vs =
     Return (acc + sum_list (map2 (\<lambda>c w. CharacterValue c * w) vs (drop k weights)))"
proof (induction vs arbitrary: k acc)
  case Nil
  then show ?case by simp
next
  case (Cons v vs)
  from Cons.prems have k: "k < length weights" by (simp add: length_weights)
  have d: "drop k weights = weights ! k # drop (Suc k) weights"
    using k by (simp add: Cons_nth_drop_Suc)
  from Cons.prems have v: "charValue v = Return (CharacterValue v)"
    by (simp add: charValue_valid)
  from Cons.prems have "list_all charsetValid vs" "Suc k + length vs \<le> 17" by simp_all
  from Cons.IH [OF this] show ?case
    using k v by (simp add: d)
qed


lemma weights_nonneg: "w \<in> set weights \<Longrightarrow> 0 \<le> w"
  by (auto simp: weights_def)

lemma weighted_sum_nonneg:
  "list_all charsetValid vs \<Longrightarrow> list_all (\<lambda>w. 0 \<le> w) ws \<Longrightarrow>
   0 \<le> sum_list (map2 (\<lambda>c w. CharacterValue c * w) vs ws)"
proof (induction vs arbitrary: ws)
  case Nil
  then show ?case by simp
next
  case (Cons v vs)
  show ?case
  proof (cases ws)
    case Nil
    then show ?thesis by simp
  next
    case (Cons w ws')
    with Cons.prems have "0 \<le> CharacterValue v * w"
      by (simp add: CharacterValue_range)
    moreover from Cons Cons.prems Cons.IH [of ws']
    have "0 \<le> sum_list (map2 (\<lambda>c w. CharacterValue c * w) vs ws')" by simp
    ultimately show ?thesis using Cons by simp
  qed
qed

lemma smod_nonneg: "0 \<le> (a::int) \<Longrightarrow> a smod 11 = a mod 11"
  by (simp add: smod_int_alt_def sgn_if)

lemma Itoa_digit: "0 \<le> m \<Longrightarrow> m < 10 \<Longrightarrow> Itoa m = [decimalDigits ! nat m]"
  by (simp add: Itoa_def formatNat.simps)

lemma calculateScore_valid:
  assumes "length fullvin = 17" and "list_all charsetValid fullvin"
  shows "calculateScore fullvin = Return (CheckCharacter fullvin)"
proof -
  let ?s = "sum_list (map2 (\<lambda>c w. CharacterValue c * w) fullvin weights)"
  have loop: "calculateScore_loop 0 0 fullvin = Return ?s"
    using calculateScore_loop_valid [of fullvin 0 0] assms by simp
  have "list_all (\<lambda>w. 0 \<le> w) weights"
    by (simp add: weights_def)
  with assms have nonneg: "0 \<le> ?s" by (rule_tac weighted_sum_nonneg)
  then have m: "?s smod 11 = ?s mod 11" by (rule smod_nonneg)
  have r: "0 \<le> ?s mod 11" "?s mod 11 < 11" by simp_all
  have w: "PositionWeightTable = weights"
    by (simp add: PositionWeightTable_def weights_def)
  show ?thesis
  proof (cases "?s mod 11 = 10")
    case True
    then show ?thesis
      by (simp add: calculateScore_def loop m CheckCharacter_def w)
  next
    case False
    with r have "?s mod 11 < 10" by linarith
    with r(1) have "Itoa (?s mod 11) = [decimalDigits ! nat (?s mod 11)]"
      by (rule Itoa_digit)
    with False show ?thesis
      by (simp add: calculateScore_def loop m CheckCharacter_def w Let_def)
  qed
qed

lemma CheckCharacter_cases:
  "CheckCharacter xs = ''X'' \<or> (\<exists>c \<in> set decimalDigits. CheckCharacter xs = [c])"
proof -
  let ?r = "sum_list (map2 (\<lambda>c w. CharacterValue c * w) xs PositionWeightTable) mod 11"
  have r: "0 \<le> ?r" "?r < 11" by simp_all
  show ?thesis
  proof (cases "?r = 10")
    case True
    then show ?thesis by (simp add: CheckCharacter_def)
  next
    case False
    with r have "nat ?r < 10" by linarith
    then have "decimalDigits ! nat ?r \<in> set decimalDigits" by (intro nth_mem) (simp add: decimalDigits_def)
    with False show ?thesis by (auto simp: CheckCharacter_def Let_def)
  qed
qed

lemma weighted_sum_position8:
  assumes "length xs = 17" and "length ys = 17"
    and "take 8 xs = take 8 ys" and "drop 9 xs = drop 9 ys"
  shows "map2 (\<lambda>c w. CharacterValue c * w) xs weights
       = map2 (\<lambda>c w. CharacterValue c * w) ys weights"
proof (rule nth_equalityI)
  show "length (map2 (\<lambda>c w. CharacterValue c * w) xs weights)
      = length (map2 (\<lambda>c w. CharacterValue c * w) ys weights)"
    using assms by simp
next
  fix i
  assume "i < length (map2 (\<lambda>c w. CharacterValue c * w) xs weights)"
  with assms have i: "i < 17" by (simp add: length_weights)
  have w8: "weights ! 8 = 0" by (simp add: weights_def)
  have same: "xs ! i = ys ! i" if "i \<noteq> 8"
  proof (cases "i < 8")
    case True
    then have "xs ! i = take 8 xs ! i" "ys ! i = take 8 ys ! i" by simp_all
    with assms(3) show ?thesis by simp
  next
    case False
    with that have "i = 9 + (i - 9)" by simp
    moreover have "drop 9 xs ! (i - 9) = xs ! (9 + (i - 9))"
      "drop 9 ys ! (i - 9) = ys ! (9 + (i - 9))"
      using assms(1,2) by (simp_all del: add_diff_inverse_nat)
    ultimately show ?thesis using assms(4) by metis
  qed
  show "map2 (\<lambda>c w. CharacterValue c * w) xs weights ! i
      = map2 (\<lambda>c w. CharacterValue c * w) ys weights ! i"
    using i assms(1,2) w8 same by (cases "i = 8") (simp_all add: length_weights)
qed

lemma charsetValid_not_reserved: "charsetValid c \<Longrightarrow> c \<notin> set ''IOQ''"
  by (auto simp: charsetValid_def)

lemma valid_no_reserved:
  "list_all charsetValid fullvin \<Longrightarrow> \<not> ContainsAny fullvin ''IOQ''"
  unfolding ContainsAny_def list_all_iff list_ex_iff
  using charsetValid_not_reserved by blast

lemma slice_8_9: "length fullvin = 17 \<Longrightarrow> slice fullvin 8 9 = Return [fullvin ! 8]"
proof -
  assume l: "length fullvin = 17"
  then have "fullvin ! 8 # drop (Suc 8) fullvin = drop 8 fullvin"
    by (intro Cons_nth_drop_Suc) simp
  then have "take 1 (drop 8 fullvin) = [fullvin ! 8]"
    by (metis One_nat_def take0 take_Suc_Cons)
  with l show ?thesis by (simp add: slice_def)
qed

lemma ValidateVIN_valid:
  assumes "length fullvin = 17" and "list_all charsetValid fullvin"
  shows "ValidateVIN fullvin =
    (if [fullvin ! 8] \<noteq> CheckCharacter fullvin
       then Return (Some (CheckDigitInvalid [fullvin ! 8] (CheckCharacter fullvin)))
     else Return None)"
  using assms
  by (simp add: ValidateVIN_def valid_no_reserved slice_8_9 calculateScore_valid)

subsection \<open>Atoi on short strings\<close>

lemma digitVal_range: "isDigit c \<Longrightarrow> 0 \<le> digitVal c \<and> digitVal c \<le> 9"
proof -
  assume "isDigit c"
  then have "48 \<le> (of_char c :: nat)" "(of_char c :: nat) \<le> 57"
    by (simp_all add: isDigit_def)
  then have "48 \<le> int (of_char c)" "int (of_char c) \<le> 57" by linarith+
  then show ?thesis by (simp add: digitVal_def of_nat_of_char)
qed

lemma ParseUint_loop_digits:
  "list_all isDigit cs \<Longrightarrow> 0 \<le> n \<Longrightarrow> n < 10 ^ k \<Longrightarrow> k + length cs \<le> 19 \<Longrightarrow>
   ParseUint_loop n cs = (foldl (\<lambda>a c. a * 10 + digitVal c) n cs, None)
   \<and> 0 \<le> foldl (\<lambda>a c. a * 10 + digitVal c) n cs
   \<and> foldl (\<lambda>a c. a * 10 + digitVal c) n cs < 10 ^ (k + length cs)"
proof (induction cs arbitrary: n k)
  case Nil
  then show ?case by simp
next
  case (Cons c cs)
  from Cons.prems have c: "isDigit c" and cs: "list_all isDigit cs" by simp_all
  from c have d: "0 \<le> digitVal c" "digitVal c \<le> 9" by (simp_all add: digitVal_range)
  from Cons.prems have k: "k \<le> 18" by simp
  then have "(10::int) ^ k \<le> 10 ^ 18" by (intro power_increasing) simp_all
  with Cons.prems have n: "n < 10 ^ 18" by linarith
  have n1: "0 \<le> n * 10 + digitVal c" using Cons.prems d by simp
  have "n + 1 \<le> 10 ^ k" using Cons.prems by simp
  then have "(n + 1) * 10 \<le> 10 ^ k * 10" by (rule mult_right_mono) simp
  then have n2: "n * 10 + digitVal c < 10 ^ Suc k" using d by simp
  from Cons.prems have len: "Suc k + length cs \<le> 19" by simp
  have step: "ParseUint_loop n (c # cs) = ParseUint_loop (n * 10 + digitVal c) cs"
    using c n d by (simp add: maxUint64_def)
  from Cons.IH [OF cs n1 n2 len] show ?case
    unfolding step by simp
qed

lemma ParseUint_loop_syntax:
  "\<not> list_all isDigit cs \<Longrightarrow> 0 \<le> n \<Longrightarrow> n < 10 ^ k \<Longrightarrow> k + length cs \<le> 19 \<Longrightarrow>
   ParseUint_loop n cs = (0, Some ErrSyntax)"
proof (induction cs arbitrary: n k)
  case Nil
  then show ?case by simp
next
  case (Cons c cs)
  show ?case
  proof (cases "isDigit c")
    case False
    then show ?thesis by simp
  next
    case True
    then have d: "0 \<le> digitVal c" "digitVal c \<le> 9" by (simp_all add: digitVal_range)
    from Cons.prems True have cs: "\<not> list_all isDigit cs" by simp
    from Cons.prems have k: "k \<le> 18" by simp
    then have "(10::int) ^ k \<le> 10 ^ 18" by (intro power_increasing) simp_all
    with Cons.prems have n: "n < 10 ^ 18" by linarith
    have n1: "0 \<le> n * 10 + digitVal c" using Cons.prems d by simp
    have "n + 1 \<le> 10 ^ k" using Cons.prems by simp
    then have "(n + 1) * 10 \<le> 10 ^ k * 10" by (rule mult_right_mono) simp
    then have n2: "n * 10 + digitVal c < 10 ^ Suc k" using d by simp
    from Cons.prems have len: "Suc k + length cs \<le> 19" by simp
    have step: "ParseUint_loop n (c # cs) = ParseUint_loop (n * 10 + digitVal c) cs"
      using True n d by (simp add: maxUint64_def)
    from Cons.IH [OF cs n1 n2 len] show ?thesis
      unfolding step by simp
  qed
qed

lemma isDigit_not_sign: "isDigit c \<Longrightarrow> c \<noteq> CHR ''+'' \<and> c \<noteq> CHR ''-''"
  by (auto simp: isDigit_def)

lemma ParseUint_digits:
  assumes "list_all isDigit ds" and "ds \<noteq> []" and "length ds \<le> 18"
  shows "ParseUint ds = (decimalValue ds, None)"
    and "0 \<le> decimalValue ds" and "decimalValue ds < 10 ^ 18"
proof -
  from assms have "0 + length ds \<le> 19" by simp
  from ParseUint_loop_digits [OF assms(1) _ _ this]
  have l: "ParseUint_loop 0 ds = (decimalValue ds, None)" "0 \<le> decimalValue ds"
    "decimalValue ds < 10 ^ length ds"
    by (simp_all add: decimalValue_def)
  from l(1) assms(2) show "ParseUint ds = (decimalValue ds, None)" by (simp add: ParseUint_def)
  show "0 \<le> decimalValue ds" by (fact l(2))
  have "(10::int) ^ length ds \<le> 10 ^ 18" using assms(3) by (intro power_increasing) simp_all
  with l(3) show "decimalValue ds < 10 ^ 18" by linarith
qed

lemma ParseUint_syntax:
  assumes "\<not> list_all isDigit ds \<or> ds = []" and "length ds \<le> 18"
  shows "ParseUint ds = (0, Some ErrSyntax)"
proof (cases "ds = []")
  case True
  then show ?thesis by (simp add: ParseUint_def)
next
  case False
  with assms have nd: "\<not> list_all isDigit ds" by simp
  from assms have "0 + length ds \<le> 19" by simp
  from ParseUint_loop_syntax [OF nd _ _ this] False show ?thesis
    by (simp add: ParseUint_def)
qed

lemma Atoi_digits:
  assumes "list_all isDigit ds" and "ds \<noteq> []" and "length ds \<le> 18"
  shows "Atoi ds = (decimalValue ds, None)"
proof -
  from assms(2) obtain c cs where ds: "ds = c # cs" by (cases ds) auto
  with assms(1) have "c \<noteq> CHR ''+''" "c \<noteq> CHR ''-''" by (simp_all add: isDigit_not_sign)
  with ParseUint_digits [OF assms] show ?thesis
    unfolding ds by (simp add: Atoi_def ParseInt_def)
qed

lemma Atoi_signed:
  assumes "c = CHR ''+'' \<or> c = CHR ''-''" and "list_all isDigit ds" and "ds \<noteq> []"
    and "length ds \<le> 18"
  shows "Atoi (c # ds) = (if c = CHR ''-'' then - decimalValue ds else decimalValue ds, None)"
  using assms(1) ParseUint_digits [OF assms(2-4)]
  by (auto simp: Atoi_def ParseInt_def)

lemma Atoi_syntax:
  assumes "length s \<le> 18" and "\<not> (list_all isDigit s \<and> s \<noteq> [])"
    and "\<not> (\<exists>c ds. s = c # ds \<and> (c = CHR ''+'' \<or> c = CHR ''-'') \<and> list_all isDigit ds \<and> ds \<noteq> [])"
  shows "Atoi s = (0, Some ErrSyntax)"
proof (cases s)
  case Nil
  then show ?thesis by (simp add: Atoi_def ParseInt_def)
next
  case (Cons c cs)
  show ?thesis
  proof (cases "c = CHR ''+'' \<or> c = CHR ''-''")
    case True
    with assms(3) Cons have "\<not> list_all isDigit cs \<or> cs = []" by auto
    moreover from assms(1) Cons have "length cs \<le> 18" by simp
    ultimately have "ParseUint cs = (0, Some ErrSyntax)" by (rule ParseUint_syntax)
    with True show ?thesis unfolding Cons by (auto simp: Atoi_def ParseInt_def)
  next
    case False
    from assms(2) Cons have "\<not> list_all isDigit s \<or> s = []" by simp
    from ParseUint_syntax [OF this assms(1)] False show ?thesis
      unfolding Cons by (simp add: Atoi_def ParseInt_def)
  qed
qed

lemma Atoi_six:
  assumes "length t = 6"
  shows "(list_all isDigit t \<longrightarrow> fst (Atoi t) = decimalValue t \<and> 0 \<le> decimalValue t)
    \<and> (hd t = CHR ''+'' \<and> list_all isDigit (tl t) \<longrightarrow>
          fst (Atoi t) = decimalValue (tl t) \<and> 0 \<le> decimalValue (tl t))
    \<and> (hd t = CHR ''-'' \<and> list_all isDigit (tl t) \<longrightarrow>
          fst (Atoi t) = - decimalValue (tl t) \<and> 0 \<le> decimalValue (tl t))
    \<and> (\<not> list_all isDigit t
         \<and> \<not> ((hd t = CHR ''+'' \<or> hd t = CHR ''-'') \<and> list_all isDigit (tl t)) \<longrightarrow>
          fst (Atoi t) = 0)"
proof -
  from assms obtain c ds where t: "t = c # ds" and ds: "length ds = 5"
    by (cases t) auto
  from ds have ne: "ds \<noteq> []" and l: "length ds \<le> 18" by auto
  from assms have lt: "t \<noteq> []" "length t \<le> 18" by auto
  have a: "list_all isDigit t \<Longrightarrow> fst (Atoi t) = decimalValue t \<and> 0 \<le> decimalValue t"
    using Atoi_digits [of t] ParseUint_digits(2) [of t] lt by simp
  have b: "c = CHR ''+'' \<Longrightarrow> list_all isDigit ds \<Longrightarrow>
      fst (Atoi t) = decimalValue ds \<and> 0 \<le> decimalValue ds"
    using Atoi_signed [of c ds] ParseUint_digits(2) [of ds] ne l t by simp
  have c: "c = CHR ''-'' \<Longrightarrow> list_all isDigit ds \<Longrightarrow>
      fst (Atoi t) = - decimalValue ds \<and> 0 \<le> decimalValue ds"
    using Atoi_signed [of c ds] ParseUint_digits(2) [of ds] ne l t by simp
  have d: "\<not> list_all isDigit t \<Longrightarrow>
      \<not> ((c = CHR ''+'' \<or> c = CHR ''-'') \<and> list_all isDigit ds) \<Longrightarrow> fst (Atoi t) = 0"
  proof -
    assume 1: "\<not> list_all isDigit t"
      and 2: "\<not> ((c = CHR ''+'' \<or> c = CHR ''-'') \<and> list_all isDigit ds)"
    from 2 t have "\<not> (\<exists>c' ds'. t = c' # ds' \<and> (c' = CHR ''+'' \<or> c' = CHR ''-'')
        \<and> list_all isDigit ds' \<and> ds' \<noteq> [])" by auto
    with Atoi_syntax [of t] lt 1 show ?thesis by simp
  qed
  from a b c d show ?thesis unfolding t by simp
qed

subsection \<open>The decoding pipeline\<close>

lemma wrap64_id:
  "- 9223372036854775808 \<le> i \<Longrightarrow> i < 9223372036854775808 \<Longrightarrow> wrap64 i = i"
  by (simp add: wrap64_def)

lemma manufactureYear_zero:
  "(\<exists>e. manufactureYear env digit s = Inl e) \<longleftrightarrow> getCharWeight env digit = 0"
  by (simp add: manufactureYear_def Let_def)

lemma manufactureYear_both:
  assumes "nowYear env s = 2025" and "1 \<le> getCharWeight env digit"
    and "getCharWeight env digit \<le> 14"
  shows "manufactureYear env digit s =
    Inr [1980 + getCharWeight env digit, 2010 + getCharWeight env digit]"
  using assms by (simp add: manufactureYear_def Let_def wrap64_id)

lemma manufactureYear_first:
  assumes "nowYear env s = 2025" and "15 \<le> getCharWeight env digit"
    and "getCharWeight env digit \<le> 29"
  shows "manufactureYear env digit s = Inr [1980 + getCharWeight env digit]"
  using assms by (simp add: manufactureYear_def Let_def wrap64_id)

lemma getUniqueSerial_long:
  "11 \<le> length fullvin \<Longrightarrow>
   getUniqueSerial fullvin = Return (take 11 fullvin, fst (Atoi (drop 11 fullvin)))"
  by (simp add: getUniqueSerial_def slice_def split_def)

lemma getUniqueSerial_short:
  "length fullvin < 11 \<Longrightarrow> getUniqueSerial fullvin = Panic SliceOutOfRange"
  by (simp add: getUniqueSerial_def slice_def)

lemma manufactureYear_error:
  "manufactureYear env digit s = Inl e \<Longrightarrow> e = UnableToGetWeight \<and> getCharWeight env digit = 0"
  by (simp add: manufactureYear_def Let_def split: if_splits)

lemma deconstruct_long:
  assumes "11 \<le> length (Full m)"
  shows "deconstruct env m s =
     (let m1 = m\<lparr>Unique := take 11 (Full m), Serial := fst (Atoi (drop 11 (Full m)))\<rparr>
      in case FindWMInfo env (take 11 (Full m)) s of
           (Inl err, s1) \<Rightarrow> Return ((Some (Lookup err), m1), s1)
         | (Inr wmiInfo, s1) \<Rightarrow>
             (case manufactureYear env (take 1 (drop 9 (Full m))) s1 of
                Inl err \<Rightarrow> Return ((Some err, m1\<lparr>WMInfo := wmiInfo\<rparr>), s1)
              | Inr years \<Rightarrow>
                  (case FindVDSInfo env (Manufacturer env wmiInfo) (take 11 (Full m)) years s1 of
                     (Inl err, s2) \<Rightarrow> Return ((Some (Lookup err), m1\<lparr>WMInfo := wmiInfo\<rparr>), s2)
                   | (Inr d, s2) \<Rightarrow> Return ((None, m1\<lparr>WMInfo := wmiInfo\<rparr>), s2))))"
  using assms
  by (simp add: deconstruct_def getUniqueSerial_long slice_def Let_def
      split: prod.splits sum.splits)

lemma deconstruct_short:
  "length (Full m) < 11 \<Longrightarrow> deconstruct env m s = Panic SliceOutOfRange"
  by (simp add: deconstruct_def getUniqueSerial_short)

lemma deconstruct_success:
  assumes "deconstruct env m s = Return ((None, m'), s')"
  shows "11 \<le> length (Full m) \<and>
    (\<exists>w years d s1.
       FindWMInfo env (take 11 (Full m)) s = (Inr w, s1)
     \<and> manufactureYear env (take 1 (drop 9 (Full m))) s1 = Inr years
     \<and> FindVDSInfo env (Manufacturer env w) (take 11 (Full m)) years s1 = (Inr d, s')
     \<and> m' = m\<lparr>Unique := take 11 (Full m), Serial := fst (Atoi (drop 11 (Full m))),
               WMInfo := w\<rparr>)"
proof (cases "11 \<le> length (Full m)")
  case False
  with assms show ?thesis by (simp add: deconstruct_short)
next
  case True
  with assms show ?thesis
    by (auto simp: deconstruct_long Let_def split: prod.splits sum.splits)
qed

lemma deconstruct_returns:
  assumes "11 \<le> length (Full m)"
  shows "\<exists>r m' s'. deconstruct env m s = Return ((r, m'), s')
     \<and> r \<noteq> Some NotCorrectLength \<and> r \<noteq> Some IllegalCharacters
     \<and> (\<forall>a b. r \<noteq> Some (CheckDigitInvalid a b))
     \<and> Full m' = Full m"
  using assms
  by (auto simp: deconstruct_long Let_def split: prod.splits sum.splits
      dest: manufactureYear_error)

lemma newVIN_success:
  assumes "newVIN env fullvin s = Return (Inr vin, s')"
  shows "11 \<le> length fullvin \<and>
    (\<exists>w years d s1.
       FindWMInfo env (take 11 fullvin) s = (Inr w, s1)
     \<and> manufactureYear env (take 1 (drop 9 fullvin)) s1 = Inr years
     \<and> FindVDSInfo env (Manufacturer env w) (take 11 fullvin) years s1 = (Inr d, s')
     \<and> vin = \<lparr>Full = fullvin, Unique = take 11 fullvin,
               Serial = fst (Atoi (drop 11 fullvin)), WMInfo = w,
               VDSInfo = zeroVDSInfo env\<rparr>)"
proof -
  let ?v0 = "\<lparr>Full = fullvin, Unique = [], Serial = 0,
              WMInfo = zeroWMInfo env, VDSInfo = zeroVDSInfo env\<rparr>"
  from assms have "deconstruct env ?v0 s = Return ((None, vin), s')"
    by (simp add: newVIN_def Let_def split: go.splits prod.splits option.splits)
  from deconstruct_success [OF this] show ?thesis by simp
qed

lemma BuildInfo_success:
  assumes "BuildInfo env fullvin s = Return (Inr vin, s')"
  shows "\<exists>vin1 s1. newVIN env fullvin s = Return (Inr vin1, s1)
     \<and> deconstruct env vin1 s1 = Return ((None, vin), s')"
  using assms
  by (auto simp: BuildInfo_def split: go.splits prod.splits sum.splits option.splits)

lemma BuildInfo_returns:
  assumes "11 \<le> length fullvin"
  shows "\<exists>r s'. BuildInfo env fullvin s = Return (r, s')
     \<and> r \<noteq> Inl NotCorrectLength \<and> r \<noteq> Inl IllegalCharacters
     \<and> (\<forall>a b. r \<noteq> Inl (CheckDigitInvalid a b))"
proof -
  let ?v0 = "\<lparr>Full = fullvin, Unique = [], Serial = 0,
              WMInfo = zeroWMInfo env, VDSInfo = zeroVDSInfo env\<rparr>"
  from assms have "11 \<le> length (Full ?v0)" by simp
  from deconstruct_returns [OF this, of env s]
  obtain r m' s1 where d1: "deconstruct env ?v0 s = Return ((r, m'), s1)"
    and r: "r \<noteq> Some NotCorrectLength" "r \<noteq> Some IllegalCharacters"
      "\<forall>a b. r \<noteq> Some (CheckDigitInvalid a b)"
    and f: "Full m' = fullvin" by auto
  show ?thesis
  proof (cases r)
    case (Some e)
    with d1 r show ?thesis
      by (auto simp: BuildInfo_def newVIN_def Let_def)
  next
    case None
    from assms f have "11 \<le> length (Full m')" by simp
    from deconstruct_returns [OF this, of env s1]
    obtain r2 m2 s2 where d2: "deconstruct env m' s1 = Return ((r2, m2), s2)"
      and r2: "r2 \<noteq> Some NotCorrectLength" "r2 \<noteq> Some IllegalCharacters"
        "\<forall>a b. r2 \<noteq> Some (CheckDigitInvalid a b)" by auto
    from None d1 d2 r2 show ?thesis
      by (cases r2) (auto simp: BuildInfo_def newVIN_def Let_def)
  qed
qed

lemma BuildInfo_short:
  "length fullvin < 11 \<Longrightarrow> BuildInfo env fullvin s = Panic SliceOutOfRange"
  by (simp add: BuildInfo_def newVIN_def deconstruct_short)

lemma BuildInfo_fields:
  assumes "BuildInfo env fullvin s = Return (Inr vin, s')"
  shows "11 \<le> length fullvin \<and> Full vin = fullvin \<and> Unique vin = take 11 fullvin
     \<and> Serial vin = fst (Atoi (drop 11 fullvin)) \<and> VDSInfo vin = zeroVDSInfo env"
proof -
  from BuildInfo_success [OF assms] obtain vin1 s1
    where n: "newVIN env fullvin s = Return (Inr vin1, s1)"
      and d: "deconstruct env vin1 s1 = Return ((None, vin), s')" by blast
  from newVIN_success [OF n] have len: "11 \<le> length fullvin"
    and v1: "Full vin1 = fullvin" "VDSInfo vin1 = zeroVDSInfo env" by auto
  from deconstruct_success [OF d] v1 len show ?thesis by auto
qed

lemmas eval_defs = BuildInfo_def newVIN_def deconstruct_def getUniqueSerial_def slice_def
  Atoi_def ParseInt_def ParseUint_def isDigit_def digitVal_def maxUint64_def
  manufactureYear_def demo_def demoCharWeight_def demoYearChars_def wrap64_def Let_def

section \<open>The claims\<close>

subsection \<open>C1: BuildInfo and the validator\<close>

text \<open>
  C1, as amended. BuildInfo does not call ValidateVIN: validation is an entry point of its
  own, which answers the empty string with the length error. On every input of at least 11
  bytes BuildInfo returns without panicking, and what it returns is never one of the three
  errors of the validator: an error of BuildInfo is the year resolver's or a lookup's.
\<close>

theorem BuildInfo_skips_validation:
  "(ValidateVIN [] :: 'x error option go) = Return (Some NotCorrectLength)
   \<and> (11 \<le> length fullvin \<longrightarrow>
        (\<exists>r s'. BuildInfo env fullvin s = Return (r, s')
           \<and> r \<noteq> Inl NotCorrectLength \<and> r \<noteq> Inl IllegalCharacters
           \<and> (\<forall>a b. r \<noteq> Inl (CheckDigitInvalid a b))))"
  using BuildInfo_returns [of fullvin env s] by (simp add: ValidateVIN_def)

text \<open>
  The theorem at a 17-character input whose year character A has weight 0: BuildInfo
  returns the year resolver's error after one WMI lookup.
\<close>

theorem BuildInfo_skips_validation_witness:
  "11 \<le> length ''1HGCM8263AA004352''
   \<and> (\<exists>s'. BuildInfo demo ''1HGCM8263AA004352'' (0, 0) = Return (Inl UnableToGetWeight, s'))"
proof -
  have "BuildInfo demo ''1HGCM8263AA004352'' (0, 0) = Return (Inl UnableToGetWeight, (1, 0))"
    by (simp add: eval_defs)
  with BuildInfo_skips_validation [of "''1HGCM8263AA004352''" demo "(0, 0)"]
  show ?thesis by simp
qed

text \<open>
  C1 as stated fails. On the empty string BuildInfo panics in the slice expression of
  getUniqueSerial instead of returning the length error; and on a 17-character string with
  the reserved letter I, which ValidateVIN rejects, BuildInfo returns a VIN.
\<close>

theorem BuildInfo_empty_panics:
  "BuildInfo demo [] (0, 0) = Panic SliceOutOfRange
   \<and> (ValidateVIN ''1HGIM8263BA004352'' :: string error option go)
       = Return (Some IllegalCharacters)
   \<and> BuildInfo demo ''1HGIM8263BA004352'' (0, 0) =
       Return (Inr \<lparr>Full = ''1HGIM8263BA004352'', Unique = ''1HGIM8263BA'', Serial = 4352,
                    WMInfo = ''Honda'', VDSInfo = []\<rparr>, (2, 2))"
  by (simp add: eval_defs ValidateVIN_def ContainsAny_def)

subsection \<open>C2: the VDSInfo field\<close>

text \<open>
  C2 fails on the code. BuildInfo succeeds on 1HGCM82633A004352; the VDS lookup, called
  with the manufacturer, the unique prefix and the candidate years [2003], returns the
  record "Honda CM82633A"; the VDSInfo field of the VIN returned is the zero value.
\<close>

theorem BuildInfo_drops_VDSInfo:
  "BuildInfo demo ''1HGCM82633A004352'' (0, 0) =
       Return (Inr \<lparr>Full = ''1HGCM82633A004352'', Unique = ''1HGCM82633A'', Serial = 4352,
                    WMInfo = ''Honda'', VDSInfo = zeroVDSInfo demo\<rparr>, (2, 2))
   \<and> manufactureYear demo ''3'' (1, 0) = Inr [2003]
   \<and> FindVDSInfo demo (Manufacturer demo ''Honda'') ''1HGCM82633A'' [2003] (1, 0)
       = (Inr ''Honda CM82633A'', (1, 1))
   \<and> zeroVDSInfo demo \<noteq> ''Honda CM82633A''"
  by (simp add: eval_defs)

subsection \<open>C3: candidate years\<close>

text \<open>
  C3, as amended. manufactureYear returns an error exactly when getCharWeight gives 0, the
  value that stands for "no weight": a character whose offset is 0 is refused like a
  character without an entry. With the current year 2025, a weight w from 1 to 14 gives
  the two years 1980 + w and 2010 + w, and a weight from 15 to 29 gives 1980 + w alone.
\<close>

theorem manufactureYear_by_weight:
  "((\<exists>e. manufactureYear env digit s = Inl e) \<longleftrightarrow> getCharWeight env digit = 0)
   \<and> (nowYear env s = 2025 \<longrightarrow>
        (1 \<le> getCharWeight env digit \<and> getCharWeight env digit \<le> 14 \<longrightarrow>
           manufactureYear env digit s =
             Inr [1980 + getCharWeight env digit, 2010 + getCharWeight env digit])
      \<and> (15 \<le> getCharWeight env digit \<and> getCharWeight env digit \<le> 29 \<longrightarrow>
           manufactureYear env digit s = Inr [1980 + getCharWeight env digit]))"
  using manufactureYear_zero [of env digit s] manufactureYear_both [of env s digit]
    manufactureYear_first [of env s digit]
  by blast

theorem manufactureYear_by_weight_witness:
  "nowYear demo (0, 0) = 2025 \<and> getCharWeight demo ''B'' = 1
   \<and> manufactureYear demo ''B'' (0, 0) = Inr [1981, 2011]
   \<and> getCharWeight demo ''3'' = 23
   \<and> manufactureYear demo ''3'' (0, 0) = Inr [2003]"
  using manufactureYear_by_weight [of demo "''B''" "(0, 0)"]
    manufactureYear_by_weight [of demo "''3''" "(0, 0)"]
  by (simp add: demo_def demoCharWeight_def demoYearChars_def)

text \<open>
  C3 as stated fails: the character A has offset 0 in the table, the year is 2025, and
  manufactureYear returns its error instead of [1980, 2010].
\<close>

theorem manufactureYear_offset_zero_fails:
  "getCharWeight demo ''A'' = 0 \<and> nowYear demo (0, 0) = 2025
   \<and> manufactureYear demo ''A'' (0, 0) = Inl UnableToGetWeight"
  by (simp add: eval_defs)

subsection \<open>C4: the check character\<close>

text \<open>
  C4. On every 17-character string over the valid character set, calculateScore returns
  the check character of the specification: values of the characters times the position
  weights, summed, modulo 11, X for 10 and the decimal digit otherwise.
\<close>

theorem calculateScore_is_CheckCharacter:
  assumes "length fullvin = 17" and "list_all charsetValid fullvin"
  shows "calculateScore fullvin = Return (CheckCharacter fullvin)"
  using assms by (rule calculateScore_valid)

theorem calculateScore_is_CheckCharacter_witness:
  "length ''1HGCM82633A004352'' = 17 \<and> list_all charsetValid ''1HGCM82633A004352''
   \<and> calculateScore ''1HGCM82633A004352'' = Return ''3''"
proof -
  have v: "list_all charsetValid ''1HGCM82633A004352''" by (simp add: charsetValid_def)
  have "CheckCharacter ''1HGCM82633A004352'' = ''3''"
    by (simp add: CheckCharacter_def CharacterValue_def PositionWeightTable_def
        getCharacterMap_def isDigit_def digitVal_def decimalDigits_def)
  with calculateScore_is_CheckCharacter [OF _ v] v show ?thesis by simp
qed

subsection \<open>C5: position 8 does not count\<close>

text \<open>
  C5. calculateScore is a function of its input, and two valid 17-character inputs that
  agree before and after position 8 (so that they differ at position 8 at most, which
  includes equal inputs) have the same check character.
\<close>

theorem calculateScore_ignores_position_8:
  assumes "length xs = 17" and "length ys = 17"
    and "list_all charsetValid xs" and "list_all charsetValid ys"
    and "take 8 xs = take 8 ys" and "drop 9 xs = drop 9 ys"
  shows "calculateScore xs = calculateScore ys"
proof -
  have "CheckCharacter xs = CheckCharacter ys"
    using weighted_sum_position8 [OF assms(1,2,5,6)]
    by (simp add: CheckCharacter_def PositionWeightTable_def weights_def)
  with calculateScore_valid [OF assms(1,3)] calculateScore_valid [OF assms(2,4)]
  show ?thesis by simp
qed

theorem calculateScore_ignores_position_8_witness:
  "length ''1HGCM82633A004352'' = 17 \<and> length ''1HGCM826X3A004352'' = 17
   \<and> list_all charsetValid ''1HGCM82633A004352'' \<and> list_all charsetValid ''1HGCM826X3A004352''
   \<and> take 8 ''1HGCM82633A004352'' = take 8 ''1HGCM826X3A004352''
   \<and> drop 9 ''1HGCM82633A004352'' = drop 9 ''1HGCM826X3A004352''
   \<and> calculateScore ''1HGCM82633A004352'' = calculateScore ''1HGCM826X3A004352''"
proof -
  have v: "list_all charsetValid ''1HGCM82633A004352''"
    "list_all charsetValid ''1HGCM826X3A004352''" by (simp_all add: charsetValid_def)
  from calculateScore_ignores_position_8 [OF _ _ v] v show ?thesis by simp
qed

subsection \<open>C6: reserved characters\<close>

text \<open>
  C6. Every string of length 17 that contains I, O or Q is answered by ValidateVIN with
  the illegal-character error, whatever its other characters are.
\<close>

theorem ValidateVIN_reserved_character:
  assumes "length fullvin = 17"
    and "CHR ''I'' \<in> set fullvin \<or> CHR ''O'' \<in> set fullvin \<or> CHR ''Q'' \<in> set fullvin"
  shows "(ValidateVIN fullvin :: 'e error option go) = Return (Some IllegalCharacters)"
proof -
  from assms(2) have "ContainsAny fullvin ''IOQ''"
    unfolding ContainsAny_def list_ex_iff by auto
  with assms(1) show ?thesis by (simp add: ValidateVIN_def)
qed

text \<open>The input of the witness also holds a +, which the check digit cannot score.\<close>

theorem ValidateVIN_reserved_character_witness:
  "length ''1HGIM8263BA+04352'' = 17 \<and> CHR ''I'' \<in> set ''1HGIM8263BA+04352''
   \<and> (ValidateVIN ''1HGIM8263BA+04352'' :: unit error option go) = Return (Some IllegalCharacters)
   \<and> charValue (CHR ''+'') = Panic AtoiFailed"
proof -
  have i: "CHR ''I'' \<in> set ''1HGIM8263BA+04352''" by simp
  have p: "charValue (CHR ''+'') = Panic AtoiFailed"
    by (simp add: charValue_def getCharacterMap_def Atoi_def ParseInt_def ParseUint_def)
  from ValidateVIN_reserved_character [of "''1HGIM8263BA+04352''"] i p show ?thesis by simp
qed

subsection \<open>C7: the serial\<close>

text \<open>
  C7, as amended. The Serial of a VIN that BuildInfo returns for a 17-character input is
  what Atoi makes of positions 11 to 16: the number that six decimal digits denote, which
  is not negative; the number that five decimal digits after a + denote; minus the number
  that five decimal digits after a - denote, which is not positive; and 0 in every other
  case, where the parse fails.
\<close>

theorem Serial_of_BuildInfo:
  assumes "length fullvin = 17" and "BuildInfo env fullvin s = Return (Inr vin, s')"
  shows "(list_all isDigit (drop 11 fullvin) \<longrightarrow>
            Serial vin = decimalValue (drop 11 fullvin) \<and> 0 \<le> Serial vin)
    \<and> (fullvin ! 11 = CHR ''+'' \<and> list_all isDigit (drop 12 fullvin) \<longrightarrow>
          Serial vin = decimalValue (drop 12 fullvin) \<and> 0 \<le> Serial vin)
    \<and> (fullvin ! 11 = CHR ''-'' \<and> list_all isDigit (drop 12 fullvin) \<longrightarrow>
          Serial vin = - decimalValue (drop 12 fullvin) \<and> Serial vin \<le> 0)
    \<and> (\<not> list_all isDigit (drop 11 fullvin)
         \<and> \<not> ((fullvin ! 11 = CHR ''+'' \<or> fullvin ! 11 = CHR ''-'')
              \<and> list_all isDigit (drop 12 fullvin)) \<longrightarrow>
          Serial vin = 0)"
proof -
  from BuildInfo_fields [OF assms(2)]
  have s: "Serial vin = fst (Atoi (drop 11 fullvin))" by simp
  from assms(1) have len: "length (drop 11 fullvin) = 6" by simp
  from assms(1) have "fullvin ! 11 # drop (Suc 11) fullvin = drop 11 fullvin"
    by (intro Cons_nth_drop_Suc) simp
  then have t: "drop 11 fullvin = fullvin ! 11 # drop 12 fullvin" by simp
  from Atoi_six [OF len] show ?thesis
    unfolding s t by auto
qed

theorem Serial_of_BuildInfo_witness:
  "length ''1HGCM82633A004352'' = 17
   \<and> BuildInfo demo ''1HGCM82633A004352'' (0, 0) =
       Return (Inr \<lparr>Full = ''1HGCM82633A004352'', Unique = ''1HGCM82633A'', Serial = 4352,
                    WMInfo = ''Honda'', VDSInfo = []\<rparr>, (2, 2))
   \<and> list_all isDigit (drop 11 ''1HGCM82633A004352'')
   \<and> 4352 = decimalValue (drop 11 ''1HGCM82633A004352'')"
proof -
  have ok: "BuildInfo demo ''1HGCM82633A004352'' (0, 0) =
       Return (Inr \<lparr>Full = ''1HGCM82633A004352'', Unique = ''1HGCM82633A'', Serial = 4352,
                    WMInfo = ''Honda'', VDSInfo = []\<rparr>, (2, 2))"
    by (simp add: eval_defs)
  have d: "list_all isDigit (drop 11 ''1HGCM82633A004352'')" by (simp add: isDigit_def)
  from Serial_of_BuildInfo [OF _ ok] d
  have "4352 = decimalValue (drop 11 ''1HGCM82633A004352'')" by simp
  with ok d show ?thesis by simp
qed

text \<open>
  C7 as stated fails: with - at position 11 the VIN that BuildInfo returns has a negative
  Serial, and the substring +04352, which is not purely numeric, parses without error.
\<close>

theorem Serial_negative:
  "BuildInfo demo ''1HGCM82633A-04352'' (0, 0) =
       Return (Inr \<lparr>Full = ''1HGCM82633A-04352'', Unique = ''1HGCM82633A'', Serial = - 4352,
                    WMInfo = ''Honda'', VDSInfo = []\<rparr>, (2, 2))
   \<and> Atoi ''+04352'' = (4352, None)"
  by (simp add: eval_defs)

subsection \<open>C8: decomposition round trip\<close>

text \<open>
  C8. On the concatenation of an 11-character prefix and six decimal digits,
  getUniqueSerial returns that prefix and the integer that the six digits denote.
\<close>

theorem getUniqueSerial_roundtrip:
  assumes "length prefix = 11" and "length serialDigits = 6"
    and "list_all isDigit serialDigits"
  shows "getUniqueSerial (prefix @ serialDigits) = Return (prefix, decimalValue serialDigits)"
proof -
  from assms(2) have "serialDigits \<noteq> []" "length serialDigits \<le> 18" by auto
  from Atoi_digits [OF assms(3) this] assms(1) show ?thesis
    by (simp add: getUniqueSerial_long)
qed

theorem getUniqueSerial_roundtrip_witness:
  "length ''1HGCM82633A'' = 11 \<and> length ''004352'' = 6 \<and> list_all isDigit ''004352''
   \<and> getUniqueSerial ''1HGCM82633A004352'' = Return (''1HGCM82633A'', 4352)"
proof -
  have d: "list_all isDigit ''004352''" by (simp add: isDigit_def)
  have "getUniqueSerial (''1HGCM82633A'' @ ''004352'')
      = Return (''1HGCM82633A'', decimalValue ''004352'')"
    by (rule getUniqueSerial_roundtrip [OF _ _ d]) simp_all
  then show ?thesis using d by (simp add: decimalValue_def digitVal_def)
qed

subsection \<open>C9: deconstruct runs twice\<close>




subsection \<open>C10: no panic on valid input\<close>

text \<open>
  C10. On every 17-character string over the valid character set, calculateScore returns,
  and what it returns is the string X or a string of one decimal digit; ValidateVIN
  returns as well, with nil or with an error.
\<close>

theorem calculateScore_never_panics:
  assumes "length fullvin = 17" and "list_all charsetValid fullvin"
  shows "(calculateScore fullvin = Return ''X''
          \<or> (\<exists>c \<in> set decimalDigits. calculateScore fullvin = Return [c]))
    \<and> (\<exists>r :: 'e error option. ValidateVIN fullvin = Return r)"
proof -
  from CheckCharacter_cases [of fullvin] calculateScore_valid [OF assms]
  have "calculateScore fullvin = Return ''X''
          \<or> (\<exists>c \<in> set decimalDigits. calculateScore fullvin = Return [c])"
    by auto
  moreover have "(ValidateVIN fullvin :: 'e error option go) =
    (if [fullvin ! 8] \<noteq> CheckCharacter fullvin
       then Return (Some (CheckDigitInvalid [fullvin ! 8] (CheckCharacter fullvin)))
     else Return None)"
    using assms by (rule ValidateVIN_valid)
  then have "\<exists>r :: 'e error option. ValidateVIN fullvin = Return r"
    by (cases "[fullvin ! 8] \<noteq> CheckCharacter fullvin") simp_all
  ultimately show ?thesis by blast
qed

theorem calculateScore_never_panics_witness:
  "length ''1M8GDM9AXKP042788'' = 17 \<and> list_all charsetValid ''1M8GDM9AXKP042788''
   \<and> calculateScore ''1M8GDM9AXKP042788'' = Return ''X''
   \<and> (ValidateVIN ''1M8GDM9AXKP042788'' :: unit error option go) = Return None"
proof -
  have v: "list_all charsetValid ''1M8GDM9AXKP042788''" by (simp add: charsetValid_def)
  have c: "CheckCharacter ''1M8GDM9AXKP042788'' = ''X''"
    by (simp add: CheckCharacter_def CharacterValue_def PositionWeightTable_def
        getCharacterMap_def isDigit_def digitVal_def decimalDigits_def)
  have s: "calculateScore ''1M8GDM9AXKP042788'' = Return ''X''"
    using calculateScore_valid [OF _ v] c by simp
  have r: "(ValidateVIN ''1M8GDM9AXKP042788'' :: unit error option go) = Return None"
    using ValidateVIN_valid [OF _ v] c by simp
  from calculateScore_never_panics [OF _ v] v s r show ?thesis by simp
qed

end
